theory Spec2Isabelle
  imports Main "HOL-Library.Word"
begin

section \<open>The data-directory chooser of \<^verbatim>\<open>src/qt/intro.cpp\<close>\<close>

text \<open>
  The file holds two classes. \<^verbatim>\<open>FreespaceChecker\<close> lives in a worker thread and probes
  the filesystem in its slot \<^verbatim>\<open>check()\<close>; \<^verbatim>\<open>Intro\<close> is the dialog, which owns the
  shared slot (\<^verbatim>\<open>pathToCheck\<close>, \<^verbatim>\<open>signalled\<close>, both guarded by \<^verbatim>\<open>mutex\<close>) and
  the widgets that \<^verbatim>\<open>setStatus\<close> updates. Each function is embedded as a HOL function on
  the part of the object state it touches; a Qt signal that a function emits is a value
  it returns; an exception that leaves a function is a value of its result type.
\<close>

subsection \<open>The shared slot: \<^verbatim>\<open>checkPath\<close> and \<^verbatim>\<open>getPathToCheck\<close>\<close>

text \<open>
  The members of \<^verbatim>\<open>Intro\<close> that the mutex guards. Both functions below hold the mutex
  from their first to their last statement, so each is one atomic step on this record.
\<close>

record Intro =
  pathToCheck :: string
  signalled :: bool

text \<open>The constructor initialises \<^verbatim>\<open>signalled(false)\<close>; the path starts as the empty \<^verbatim>\<open>QString\<close>.\<close>

definition Intro_init :: Intro where
  "Intro_init = \<lparr>pathToCheck = [], signalled = False\<rparr>"

text \<open>The one signal \<^verbatim>\<open>Intro\<close> sends to the worker.\<close>

datatype signal = requestCheck

text \<open>
  \<^verbatim>\<open>checkPath\<close> stores the path and, when no request is signalled yet, sets the flag and
  emits \<^verbatim>\<open>requestCheck()\<close>. The result is the list of signals emitted by the call and
  the slot after it.
\<close>

definition checkPath :: "string \<Rightarrow> Intro \<Rightarrow> signal list \<times> Intro" where
  "checkPath dataDir s =
     (let s1 = s\<lparr>pathToCheck := dataDir\<rparr>
      in if \<not> signalled s1
         then ([requestCheck], s1\<lparr>signalled := True\<rparr>)
         else ([], s1))"

text \<open>\<^verbatim>\<open>getPathToCheck\<close> copies the path out and clears the flag.\<close>

definition getPathToCheck :: "Intro \<Rightarrow> string \<times> Intro" where
  "getPathToCheck s =
     (let retval = pathToCheck s
      in (retval, s\<lparr>signalled := False\<rparr>))"

text \<open>Successive calls of \<^verbatim>\<open>checkPath\<close> with no other access to the slot in between.\<close>

fun checkPaths :: "string list \<Rightarrow> Intro \<Rightarrow> signal list \<times> Intro" where
  "checkPaths [] s = ([], s)"
| "checkPaths (p # ps) s =
     (let (sigs1, s1) = checkPath p s;
          (sigs2, s2) = checkPaths ps s1
      in (sigs1 @ sigs2, s2))"

subsection \<open>The two threads around the slot\<close>

text \<open>
  \<^verbatim>\<open>startThread\<close> moves the \<^verbatim>\<open>FreespaceChecker\<close> to its own thread and connects
  \<^verbatim>\<open>requestCheck()\<close> to its slot \<^verbatim>\<open>check()\<close>. Sender and receiver live in different
  threads, so every emitted \<^verbatim>\<open>requestCheck\<close> is posted to the worker thread's event
  queue, and the worker's event loop runs \<^verbatim>\<open>check()\<close> once per posted event, one call
  at a time. The first statement of \<^verbatim>\<open>check()\<close> is \<^verbatim>\<open>intro->getPathToCheck()\<close>; its
  last is \<^verbatim>\<open>emit reply(...)\<close>.
\<close>

datatype executor = Idle | Entered | Probing string

record threads =
  slot :: Intro
  posted :: nat
  worker :: executor

definition threads_init :: threads where
  "threads_init = \<lparr>slot = Intro_init, posted = 0, worker = Idle\<rparr>"

text \<open>
  The atomic steps of the two threads: the UI thread calls \<^verbatim>\<open>checkPath\<close>; the worker's
  event loop takes a posted event and enters \<^verbatim>\<open>check()\<close>; \<^verbatim>\<open>check()\<close> reads the slot;
  \<^verbatim>\<open>check()\<close> emits its reply and returns to the event loop. A step that cannot happen
  in the state is \<open>None\<close>.
\<close>

datatype action = Call_checkPath string | Deliver | Read_slot | Emit_reply

fun step :: "action \<Rightarrow> threads \<Rightarrow> threads option" where
  "step (Call_checkPath p) t =
     (let (sigs, s') = checkPath p (slot t)
      in Some (t\<lparr>slot := s', posted := posted t + length sigs\<rparr>))"
| "step Deliver t =
     (if worker t = Idle \<and> 0 < posted t
      then Some (t\<lparr>posted := posted t - 1, worker := Entered\<rparr>)
      else None)"
| "step Read_slot t =
     (if worker t = Entered
      then (let (p, s') = getPathToCheck (slot t)
            in Some (t\<lparr>slot := s', worker := Probing p\<rparr>))
      else None)"
| "step Emit_reply t =
     (case worker t of
        Probing p \<Rightarrow> Some (t\<lparr>worker := Idle\<rparr>)
      | _ \<Rightarrow> None)"

fun run :: "action list \<Rightarrow> threads \<Rightarrow> threads option" where
  "run [] t = Some t"
| "run (a # as) t = (case step a t of None \<Rightarrow> None | Some t' \<Rightarrow> run as t')"

text \<open>
  The requests in flight to the worker thread: those dispatched whose \<^verbatim>\<open>check()\<close> has
  not read the slot yet, that is, the posted events and a \<^verbatim>\<open>check()\<close> that has been
  entered and has not yet called \<^verbatim>\<open>getPathToCheck\<close>.
\<close>

definition in_flight :: "threads \<Rightarrow> nat" where
  "in_flight t = posted t + (if worker t = Entered then 1 else 0)"

subsection \<open>The filesystem as \<^verbatim>\<open>check()\<close> sees it\<close>

text \<open>
  \<^verbatim>\<open>boost::filesystem\<close> is not part of the repository. A \<^verbatim>\<open>fs::path\<close> is taken as the
  sequence of its elements (what iterating over the path yields: the root, then the
  names), and \<^verbatim>\<open>parent_path()\<close> drops the last element, as Boost documents it;
  \<^verbatim>\<open>has_parent_path()\<close> is \<^verbatim>\<open>!parent_path().empty()\<close>.
\<close>

type_synonym path = "string list"

definition parent_path :: "path \<Rightarrow> path" where
  "parent_path p = butlast p"

definition has_parent_path :: "path \<Rightarrow> bool" where
  "has_parent_path p = (parent_path p \<noteq> [])"

text \<open>
  The queries are parameters. Each of them either returns or throws
  \<^verbatim>\<open>fs::filesystem_error\<close>; \<open>fs_space\<close> is the \<^verbatim>\<open>available\<close> field of
  \<^verbatim>\<open>fs::space\<close>. \<open>to_path\<close> is the conversion of the string to a \<^verbatim>\<open>fs::path\<close>, and
  \<open>native_separator\<close> is \<^verbatim>\<open>QDir::toNativeSeparators("/")\<close>.
\<close>

datatype filesystem_error = filesystem_error

record filesystem =
  to_path :: "string \<Rightarrow> path"
  fs_exists :: "path \<Rightarrow> filesystem_error + bool"
  fs_is_directory :: "path \<Rightarrow> filesystem_error + bool"
  fs_space :: "path \<Rightarrow> filesystem_error + 64 word"
  native_separator :: string

subsection \<open>Strings of the user interface\<close>

text \<open>
  \<^verbatim>\<open>tr\<close> looks a source string up in the installed translation and returns the source
  string itself when there is none; the messages are taken untranslated.
\<close>

definition tr :: "string \<Rightarrow> string" where
  "tr s = s"

text \<open>\<^verbatim>\<open>QString::arg\<close> on a format whose only place marker is \<^verbatim>\<open>%1\<close>.\<close>

fun arg :: "string \<Rightarrow> string \<Rightarrow> string" where
  "arg [] a = []"
| "arg [c] a = [c]"
| "arg (c # d # cs) a =
     (if c = CHR ''%'' \<and> d = CHR ''1'' then a @ arg cs a else c # arg (d # cs) a)"

text \<open>\<^verbatim>\<open>QString::number\<close> of an unsigned value: its decimal digits.\<close>

definition digit :: "nat \<Rightarrow> char" where
  "digit d = ''0123456789'' ! d"

function QString_number :: "nat \<Rightarrow> string" where
  "QString_number n =
     (if n < 10 then [digit n] else QString_number (n div 10) @ [digit (n mod 10)])"
  by pat_completeness auto
termination
  by (relation "measure (\<lambda>n. n)") auto

declare QString_number.simps [simp del]

subsection \<open>\<^verbatim>\<open>FreespaceChecker::check\<close>\<close>

definition ST_OK :: int where
  "ST_OK = 0"

definition ST_ERROR :: int where
  "ST_ERROR = 1"

text \<open>The locals of \<^verbatim>\<open>check()\<close> that the reply is built from.\<close>

record locals =
  freeBytesAvailable :: "64 word"
  replyStatus :: int
  replyMessage :: string

text \<open>The arguments of the signal \<^verbatim>\<open>reply(int, QString, quint64)\<close>.\<close>

record reply =
  status :: int
  message :: string
  available :: "64 word"

text \<open>
  The loop that finds the first parent that exists. It stands before the \<^verbatim>\<open>try\<close>
  block, so an exception of \<^verbatim>\<open>fs::exists\<close> in its condition leaves \<^verbatim>\<open>check()\<close>:
  the result \<open>Inl\<close>. \<^verbatim>\<open>&&\<close> evaluates \<^verbatim>\<open>fs::exists\<close> only for a path with a parent.
\<close>

function find_parent :: "filesystem \<Rightarrow> path \<Rightarrow> filesystem_error + path" where
  "find_parent fs parentDir =
     (if has_parent_path parentDir
      then (case fs_exists fs parentDir of
              Inl e \<Rightarrow> Inl e
            | Inr ex \<Rightarrow>
                if \<not> ex then find_parent fs (parent_path parentDir) else Inr parentDir)
      else Inr parentDir)"
  by pat_completeness auto
termination
proof (relation "measure (\<lambda>(fs, p). length p)")
  show "wf (measure (\<lambda>(fs :: filesystem, p :: path). length p))"
    by simp
next
  fix fs :: filesystem and parentDir :: path
  assume "has_parent_path parentDir"
  then have "parentDir \<noteq> []"
    by (auto simp: has_parent_path_def parent_path_def)
  then show "((fs, parent_path parentDir), (fs, parentDir))
               \<in> measure (\<lambda>(fs, p). length p)"
    by (simp add: parent_path_def)
qed

declare find_parent.simps [simp del]

text \<open>
  The body of the \<^verbatim>\<open>try\<close> block: the locals as they are when the block is left, and
  the exception that left it, if any.
\<close>

definition try_block ::
  "filesystem \<Rightarrow> path \<Rightarrow> path \<Rightarrow> locals \<Rightarrow> locals \<times> filesystem_error option" where
  "try_block fs parentDir dataDir l =
     (case fs_space fs parentDir of
        Inl e \<Rightarrow> (l, Some e)
      | Inr sp \<Rightarrow>
          (let l1 = l\<lparr>freeBytesAvailable := sp\<rparr>
           in case fs_exists fs dataDir of
                Inl e \<Rightarrow> (l1, Some e)
              | Inr ex \<Rightarrow>
                  if ex
                  then (case fs_is_directory fs dataDir of
                          Inl e \<Rightarrow> (l1, Some e)
                        | Inr isdir \<Rightarrow>
                            if isdir
                            then (l1\<lparr>replyStatus := ST_OK,
                                    replyMessage :=
                                      arg (tr ''Directory already exists. Add <code>%1name</code> if you intend to create a new directory here.'')
                                        (native_separator fs)\<rparr>, None)
                            else (l1\<lparr>replyStatus := ST_ERROR,
                                    replyMessage := tr ''Path already exists, and is not a directory.''\<rparr>,
                                  None))
                  else (l1, None)))"

text \<open>
  \<^verbatim>\<open>check()\<close>: what it does (it emits \<^verbatim>\<open>reply\<close>, or an exception leaves it), and the slot
  after its \<^verbatim>\<open>getPathToCheck\<close>.
\<close>

datatype check_result = Reply reply | Exception filesystem_error

definition check :: "filesystem \<Rightarrow> Intro \<Rightarrow> check_result \<times> Intro" where
  "check fs intro =
     (let (dataDirStr, intro') = getPathToCheck intro;
          dataDir = to_path fs dataDirStr;
          l0 = \<lparr>freeBytesAvailable = 0, replyStatus = ST_OK,
                replyMessage = tr ''A new data directory will be created.''\<rparr>
      in case find_parent fs dataDir of
           Inl e \<Rightarrow> (Exception e, intro')
         | Inr parentDir \<Rightarrow>
             (let (l1, thrown) = try_block fs parentDir dataDir l0;
                  l2 = (case thrown of
                          None \<Rightarrow> l1
                        | Some e \<Rightarrow>
                            l1\<lparr>replyStatus := ST_ERROR,
                               replyMessage := tr ''Cannot create data directory here.''\<rparr>)
              in (Reply \<lparr>status = replyStatus l2, message = replyMessage l2,
                         available = freeBytesAvailable l2\<rparr>, intro')))"

subsection \<open>\<^verbatim>\<open>Intro::setStatus\<close>\<close>

definition GB_BYTES :: "64 word" where
  "GB_BYTES = 1000000000"

definition BLOCK_CHAIN_SIZE :: "64 word" where
  "BLOCK_CHAIN_SIZE = 10 * GB_BYTES"

text \<open>The widgets \<^verbatim>\<open>setStatus\<close> writes: two labels and the OK button of the button box.\<close>

record Ui =
  errorMessage_text :: string
  errorMessage_styleSheet :: string
  freeSpace_text :: string
  freeSpace_styleSheet :: string
  Ok_enabled :: bool

text \<open>
  The \<^verbatim>\<open>switch\<close> has the cases \<^verbatim>\<open>ST_OK\<close> and \<^verbatim>\<open>ST_ERROR\<close> and no default; the
  \<^verbatim>\<open>if\<close> after it and the button test \<^verbatim>\<open>status\<close> against \<^verbatim>\<open>ST_ERROR\<close> only.
\<close>

definition setStatus :: "int \<Rightarrow> string \<Rightarrow> 64 word \<Rightarrow> Ui \<Rightarrow> Ui" where
  "setStatus st msg bytesAvailable ui =
     (let ui1 =
            (if st = ST_OK
             then ui\<lparr>errorMessage_text := msg, errorMessage_styleSheet := ''''\<rparr>
             else if st = ST_ERROR
             then ui\<lparr>errorMessage_text := tr ''Error'' @ '': '' @ msg,
                     errorMessage_styleSheet := ''QLabel { color: #800000 }''\<rparr>
             else ui);
          ui2 =
            (if st = ST_ERROR
             then ui1\<lparr>freeSpace_text := ''''\<rparr>
             else
               (let freeString = QString_number (unat (bytesAvailable div GB_BYTES))
                                   @ tr ''GB of free space available''
                in if bytesAvailable < BLOCK_CHAIN_SIZE
                   then ui1\<lparr>freeSpace_styleSheet := ''QLabel { color: #800000 }'',
                            freeSpace_text :=
                              (freeString @ '' ''
                                 @ arg (tr ''(of %1GB needed)'')
                                     (QString_number (unat (BLOCK_CHAIN_SIZE div GB_BYTES))))
                              @ ''.''\<rparr>
                   else ui1\<lparr>freeSpace_styleSheet := '''',
                            freeSpace_text := freeString @ ''.''\<rparr>))
      in ui2\<lparr>Ok_enabled := (st \<noteq> ST_ERROR)\<rparr>)"

subsection \<open>\<^verbatim>\<open>Intro::pickDataDirectory\<close>\<close>

text \<open>
  Modelled from the spec: \<^verbatim>\<open>GetArg\<close> of \<^verbatim>\<open>util.h\<close>, which is not among the sources.
  The spec has a command-line and configuration accessor that tells whether an option
  was supplied, with a default; the options are a map from names to values, and the
  accessor returns the supplied value, or the default when none was supplied.
\<close>

definition GetArg :: "(string \<rightharpoonup> string) \<Rightarrow> string \<Rightarrow> string \<Rightarrow> string" where
  "GetArg mapArgs strArg strDefault =
     (case mapArgs strArg of Some v \<Rightarrow> v | None \<Rightarrow> strDefault)"

text \<open>
  Modelled from the spec: \<^verbatim>\<open>SoftSetArg\<close> of \<^verbatim>\<open>util.h\<close>, which is not among the
  sources. The spec has the value written under the key only if the key is not already
  explicitly set, never overriding a supplied value.
\<close>

definition SoftSetArg :: "(string \<rightharpoonup> string) \<Rightarrow> string \<Rightarrow> string \<Rightarrow> (string \<rightharpoonup> string)" where
  "SoftSetArg mapArgs strArg strValue =
     (case mapArgs strArg of Some v \<Rightarrow> mapArgs | None \<Rightarrow> mapArgs(strArg \<mapsto> strValue))"

text \<open>
  What \<^verbatim>\<open>pickDataDirectory\<close> reads and writes outside itself: the options, the
  \<^verbatim>\<open>QSettings\<close> store, the directories that \<^verbatim>\<open>fs::create_directory\<close> made, the texts of
  the \<^verbatim>\<open>QMessageBox::critical\<close> boxes shown, and the number of times the chooser dialog
  was run with \<^verbatim>\<open>intro.exec()\<close>.
\<close>

record process =
  mapArgs :: "string \<rightharpoonup> string"
  settings :: "string \<rightharpoonup> string"
  created :: "string list"
  critical :: "string list"
  exec_calls :: nat

text \<open>
  What the function is given: \<^verbatim>\<open>GetDefaultDataDir()\<close>, the value of
  \<^verbatim>\<open>GetBoolArg("-choosedatadir", false)\<close>, and the two filesystem calls, each of which
  returns or throws. \<^verbatim>\<open>fs::create_directory\<close> returns whether it made a directory.
\<close>

record startup =
  GetDefaultDataDir :: string
  choosedatadir :: bool
  exists_str :: "string \<Rightarrow> filesystem_error + bool"
  create_directory :: "string \<Rightarrow> filesystem_error + bool"

text \<open>
  The \<^verbatim>\<open>while(true)\<close> loop. The user is a list of answers, one per run of the dialog:
  the value \<^verbatim>\<open>intro.exec()\<close> returns and the text of the directory field at that time.
  When the answers are used up the dialog stays open: \<^verbatim>\<open>exec()\<close> has not returned.
\<close>

datatype chosen = Break string process | Exit_called int process | Exec_open process

fun choose_loop :: "startup \<Rightarrow> (int \<times> string) list \<Rightarrow> process \<Rightarrow> chosen" where
  "choose_loop env [] w = Exec_open (w\<lparr>exec_calls := exec_calls w + 1\<rparr>)"
| "choose_loop env ((code, dataDir) # user) w =
     (let w1 = w\<lparr>exec_calls := exec_calls w + 1\<rparr>
      in if code = 0
         then Exit_called 0 w1
         else (case create_directory env dataDir of
                 Inr made \<Rightarrow>
                   Break dataDir
                     (if made then w1\<lparr>created := created w1 @ [dataDir]\<rparr> else w1)
               | Inl e \<Rightarrow>
                   choose_loop env user
                     (w1\<lparr>critical := critical w1 @
                         [arg (tr ''Error: Specified data directory \"%1\" can not be created.'')
                            dataDir]\<rparr>)))"

text \<open>
  How a call of \<^verbatim>\<open>pickDataDirectory\<close> ends: it returns, \<^verbatim>\<open>exit\<close> ends the process with
  a code, the exception of \<^verbatim>\<open>fs::exists\<close> leaves it, or the dialog is still open.
\<close>

datatype outcome =
  Returned process | Exited int process | Thrown filesystem_error process | Dialog_open process

definition pickDataDirectory :: "startup \<Rightarrow> (int \<times> string) list \<Rightarrow> process \<Rightarrow> outcome" where
  "pickDataDirectory env user w =
     (if GetArg (mapArgs w) ''-datadir'' '''' \<noteq> ''''
      then Returned w
      else
        (let dataDir0 = GetDefaultDataDir env;
             dataDir = (case settings w ''strDataDir'' of Some v \<Rightarrow> v | None \<Rightarrow> dataDir0)
         in case exists_str env dataDir of
              Inl e \<Rightarrow> Thrown e w
            | Inr ex \<Rightarrow>
                if \<not> ex \<or> choosedatadir env
                then (case choose_loop env user w of
                        Exit_called c w1 \<Rightarrow> Exited c w1
                      | Exec_open w1 \<Rightarrow> Dialog_open w1
                      | Break d w1 \<Rightarrow>
                          Returned
                            (w1\<lparr>settings := (settings w1)(''strDataDir'' \<mapsto> d),
                                mapArgs := SoftSetArg (mapArgs w1) ''-datadir'' d\<rparr>))
                else Returned (w\<lparr>mapArgs := SoftSetArg (mapArgs w) ''-datadir'' dataDir\<rparr>)))"

subsection \<open>Concrete inputs\<close>

text \<open>A dialog whose labels are empty and whose OK button is disabled.\<close>

definition ui0 :: Ui where
  "ui0 = \<lparr>errorMessage_text = '''', errorMessage_styleSheet = '''', freeSpace_text = '''',
          freeSpace_styleSheet = '''', Ok_enabled = False\<rparr>"

subsection \<open>The nearest existing ancestor, as the specification has it\<close>

text \<open>
  The ancestors of a path \<open>P\<close> are \<open>P\<close> itself and the paths left when elements are
  dropped from its end: its non-empty prefixes. \<open>A\<close> is the nearest existing ancestor of
  \<open>P\<close> when \<open>A\<close> is such a prefix, \<^verbatim>\<open>fs::exists\<close> returns true for it, and returns false
  for every longer prefix of \<open>P\<close>.
\<close>

definition nearest_existing_ancestor :: "filesystem \<Rightarrow> path \<Rightarrow> path \<Rightarrow> bool" where
  "nearest_existing_ancestor fs P A =
     (\<exists>k \<in> {1 .. length P}.
        A = take k P \<and> fs_exists fs A = Inr True \<and>
        (\<forall>j \<in> {k <.. length P}. fs_exists fs (take j P) = Inr False))"

subsection \<open>Concrete filesystems\<close>

text \<open>
  The paths of the examples are POSIX paths without empty names and without a slash at
  the end; their elements are the root \<^verbatim>\<open>/\<close>, if the path starts with it, and the names
  between the slashes.
\<close>

fun names :: "string \<Rightarrow> string \<Rightarrow> path" where
  "names cur [] = (if cur = [] then [] else [cur])"
| "names cur (c # cs) =
     (if c = CHR ''/''
      then (if cur = [] then names [] cs else cur # names [] cs)
      else names (cur @ [c]) cs)"

definition posix_path :: "string \<Rightarrow> path" where
  "posix_path s =
     (case s of
        [] \<Rightarrow> []
      | c # cs \<Rightarrow> if c = CHR ''/'' then ''/'' # names [] cs else names [] s)"

text \<open>
  The filesystem of the scenarios: the directories \<^verbatim>\<open>/\<close>, \<^verbatim>\<open>/existing\<close> and
  \<^verbatim>\<open>/existing/dir\<close> and the regular file \<^verbatim>\<open>/existing/file.txt\<close>, with 5,000,000,000
  bytes available; \<^verbatim>\<open>fs::space\<close> throws for a path that does not exist.
\<close>

definition fs_scenario :: filesystem where
  "fs_scenario =
     \<lparr>to_path = posix_path,
      fs_exists = (\<lambda>p. Inr (p \<in> {[''/''], [''/'', ''existing''],
                                 [''/'', ''existing'', ''dir''],
                                 [''/'', ''existing'', ''file.txt'']})),
      fs_is_directory = (\<lambda>p. Inr (p \<in> {[''/''], [''/'', ''existing''],
                                       [''/'', ''existing'', ''dir'']})),
      fs_space = (\<lambda>p. if p \<in> {[''/''], [''/'', ''existing''],
                                [''/'', ''existing'', ''dir''],
                                [''/'', ''existing'', ''file.txt'']}
                       then Inr 5000000000 else Inl filesystem_error),
      native_separator = ''/''\<rparr>"

text \<open>A filesystem where every path is an existing directory and \<^verbatim>\<open>fs::space\<close> throws.\<close>

definition fs_space_throws :: filesystem where
  "fs_space_throws =
     \<lparr>to_path = posix_path,
      fs_exists = (\<lambda>p. Inr True),
      fs_is_directory = (\<lambda>p. Inr True),
      fs_space = (\<lambda>p. Inl filesystem_error),
      native_separator = ''/''\<rparr>"

text \<open>
  A filesystem where \<^verbatim>\<open>fs::exists\<close> and \<^verbatim>\<open>fs::is_directory\<close> throw for every path and
  \<^verbatim>\<open>fs::space\<close> returns 5,000,000,000 available bytes.
\<close>

definition fs_exists_throws :: filesystem where
  "fs_exists_throws =
     \<lparr>to_path = posix_path,
      fs_exists = (\<lambda>p. Inl filesystem_error),
      fs_is_directory = (\<lambda>p. Inl filesystem_error),
      fs_space = (\<lambda>p. Inr 5000000000),
      native_separator = ''/''\<rparr>"

text \<open>The slot after \<^verbatim>\<open>checkPath\<close> was called with a path.\<close>

definition asked :: "string \<Rightarrow> Intro" where
  "asked p = \<lparr>pathToCheck = p, signalled = True\<rparr>"

subsection \<open>When the chooser is shown, and concrete runs of \<^verbatim>\<open>pickDataDirectory\<close>\<close>

text \<open>
  The chooser dialog is reached when no non-empty \<^verbatim>\<open>-datadir\<close> is given, and the
  directory from the settings (or else the default one) does not exist or
  \<^verbatim>\<open>-choosedatadir\<close> is set.
\<close>

definition chooser_shown :: "startup \<Rightarrow> process \<Rightarrow> bool" where
  "chooser_shown env w =
     (GetArg (mapArgs w) ''-datadir'' '''' = '''' \<and>
      (case exists_str env
              (case settings w ''strDataDir'' of Some v \<Rightarrow> v | None \<Rightarrow> GetDefaultDataDir env) of
         Inl e \<Rightarrow> False
       | Inr ex \<Rightarrow> \<not> ex \<or> choosedatadir env))"

text \<open>
  A first run: the default directory does not exist yet, and a directory can be made
  anywhere but at \<^verbatim>\<open>/root/num2\<close>.
\<close>

definition env_first_run :: startup where
  "env_first_run =
     \<lparr>GetDefaultDataDir = ''/home/user/.num2'',
      choosedatadir = False,
      exists_str = (\<lambda>p. Inr (p = ''/home/user'')),
      create_directory = (\<lambda>p. if p = ''/root/num2'' then Inl filesystem_error else Inr True)\<rparr>"

text \<open>A process with no options and no settings, and one with \<^verbatim>\<open>-datadir\<close> supplied.\<close>

definition process0 :: process where
  "process0 = \<lparr>mapArgs = Map.empty, settings = Map.empty, created = [], critical = [],
               exec_calls = 0\<rparr>"

definition process_datadir :: "string \<Rightarrow> process" where
  "process_datadir v = process0\<lparr>mapArgs := [''-datadir'' \<mapsto> v]\<rparr>"

subsection \<open>Lemmas on the slot\<close>

lemma checkPath_clear:
  "\<not> signalled s \<Longrightarrow>
     checkPath p s = ([requestCheck], \<lparr>pathToCheck = p, signalled = True\<rparr>)"
  by (simp add: checkPath_def)

lemma checkPath_set:
  "signalled s \<Longrightarrow> checkPath p s = ([], \<lparr>pathToCheck = p, signalled = True\<rparr>)"
  by (simp add: checkPath_def)

lemma checkPaths_set:
  "signalled s \<Longrightarrow> ps \<noteq> [] \<Longrightarrow>
     checkPaths ps s = ([], \<lparr>pathToCheck = last ps, signalled = True\<rparr>)"
proof (induction ps arbitrary: s)
  case Nil
  then show ?case by simp
next
  case (Cons p ps)
  let ?s1 = "\<lparr>pathToCheck = p, signalled = True\<rparr>"
  have step: "checkPath p s = ([], ?s1)"
    using Cons.prems(1) by (rule checkPath_set)
  show ?case
  proof (cases "ps = []")
    case True
    then show ?thesis by (simp add: step)
  next
    case False
    then have "checkPaths ps ?s1 = ([], \<lparr>pathToCheck = last ps, signalled = True\<rparr>)"
      using Cons.IH [of ?s1] by simp
    then show ?thesis using False by (simp add: step)
  qed
qed

lemma checkPaths_clear:
  assumes "\<not> signalled s" and "ps \<noteq> []"
  shows "checkPaths ps s = ([requestCheck], \<lparr>pathToCheck = last ps, signalled = True\<rparr>)"
proof (cases ps)
  case Nil
  with assms(2) show ?thesis by simp
next
  case (Cons p qs)
  let ?s1 = "\<lparr>pathToCheck = p, signalled = True\<rparr>"
  have step: "checkPath p s = ([requestCheck], ?s1)"
    using assms(1) by (rule checkPath_clear)
  show ?thesis
  proof (cases "qs = []")
    case True
    then show ?thesis by (simp add: Cons step)
  next
    case False
    then have "checkPaths qs ?s1 = ([], \<lparr>pathToCheck = last qs, signalled = True\<rparr>)"
      by (simp add: checkPaths_set)
    then show ?thesis using False by (simp add: Cons step)
  qed
qed

text \<open>
  C1. Let the slot have no request signalled (as the constructor leaves it, and as every
  \<^verbatim>\<open>getPathToCheck\<close> leaves it), and let \<^verbatim>\<open>checkPath\<close> be called with the paths
  \<open>P1 .. PN\<close>, \<open>N \<ge> 1\<close>, before the worker reads the slot. Then the calls together emit
  \<^verbatim>\<open>requestCheck\<close> exactly once, and the \<^verbatim>\<open>getPathToCheck\<close> that follows returns \<open>PN\<close>.
\<close>

theorem checkPaths_one_dispatch_last_path:
  assumes "\<not> signalled s" and "ps \<noteq> []"
  shows "fst (checkPaths ps s) = [requestCheck] \<and>
         fst (getPathToCheck (snd (checkPaths ps s))) = last ps"
  using assms by (simp add: checkPaths_clear getPathToCheck_def)

theorem checkPaths_one_dispatch_last_path_witness:
  "\<not> signalled Intro_init \<and> [''/a'', ''/ab'', ''/abc''] \<noteq> [] \<and>
   fst (checkPaths [''/a'', ''/ab'', ''/abc''] Intro_init) = [requestCheck] \<and>
   fst (getPathToCheck (snd (checkPaths [''/a'', ''/ab'', ''/abc''] Intro_init))) = ''/abc''"
  using checkPaths_one_dispatch_last_path [of Intro_init "[''/a'', ''/ab'', ''/abc'']"]
  by (simp add: Intro_init_def)

subsection \<open>One request in flight\<close>

lemma step_in_flight:
  assumes "step a t = Some t'"
    and "in_flight t = (if signalled (slot t) then 1 else 0)"
  shows "in_flight t' = (if signalled (slot t') then 1 else 0)"
proof (cases a)
  case (Call_checkPath p)
  with assms show ?thesis
    by (auto simp: in_flight_def checkPath_def split: if_splits)
next
  case Deliver
  with assms show ?thesis
    by (auto simp: in_flight_def split: if_splits)
next
  case Read_slot
  with assms show ?thesis
    by (auto simp: in_flight_def getPathToCheck_def split: if_splits)
next
  case Emit_reply
  with assms show ?thesis
    by (auto simp: in_flight_def split: if_splits executor.splits)
qed

lemma run_in_flight:
  "run as t = Some t' \<Longrightarrow> in_flight t = (if signalled (slot t) then 1 else 0) \<Longrightarrow>
     in_flight t' = (if signalled (slot t') then 1 else 0)"
proof (induction as arbitrary: t)
  case Nil
  then show ?case by simp
next
  case (Cons a as)
  from Cons.prems(1) obtain t1 where s: "step a t = Some t1" and r: "run as t1 = Some t'"
    by (auto split: option.splits)
  from s Cons.prems(2) have "in_flight t1 = (if signalled (slot t1) then 1 else 0)"
    by (rule step_in_flight)
  with r show ?case by (rule Cons.IH)
qed

lemma init_in_flight: "in_flight threads_init = (if signalled (slot threads_init) then 1 else 0)"
  by (simp add: in_flight_def threads_init_def Intro_init_def)

text \<open>
  C5. In every state the two threads can reach from the constructed dialog, at most one
  request is in flight to the worker, and one is in flight exactly when \<^verbatim>\<open>signalled\<close>
  is set. \<^verbatim>\<open>checkPath\<close> emits \<^verbatim>\<open>requestCheck\<close> only when the flag is clear, and then
  sets it; when the flag is set it only overwrites the path. \<^verbatim>\<open>getPathToCheck\<close> clears
  the flag. So after any \<^verbatim>\<open>checkPath\<close> exactly one request is in flight, and a further
  one is posted only when the slot has been read since the last dispatch. (A \<^verbatim>\<open>check()\<close>
  that has read the slot and is still probing is not counted as in flight: the next
  request may be posted while it runs.)
\<close>

theorem at_most_one_request_in_flight:
  assumes "run as threads_init = Some t"
  shows "in_flight t \<le> 1 \<and>
         (signalled (slot t) \<longleftrightarrow> in_flight t = 1) \<and>
         fst (checkPath p (slot t)) = (if signalled (slot t) then [] else [requestCheck]) \<and>
         snd (checkPath p (slot t)) = \<lparr>pathToCheck = p, signalled = True\<rparr> \<and>
         \<not> signalled (snd (getPathToCheck (slot t))) \<and>
         (\<forall>q t'. step (Call_checkPath q) t = Some t' \<longrightarrow>
            pathToCheck (slot t') = q \<and>
            in_flight t' = 1 \<and>
            posted t' = (if signalled (slot t) then posted t else posted t + 1))"
proof -
  have inv: "in_flight t = (if signalled (slot t) then 1 else 0)"
    using assms init_in_flight by (rule run_in_flight)
  have cp: "fst (checkPath p (slot t)) = (if signalled (slot t) then [] else [requestCheck])"
     "snd (checkPath p (slot t)) = \<lparr>pathToCheck = p, signalled = True\<rparr>"
    by (simp_all add: checkPath_def Let_def)
  have gp: "\<not> signalled (snd (getPathToCheck (slot t)))"
    by (simp add: getPathToCheck_def)
  have st: "\<forall>q t'. step (Call_checkPath q) t = Some t' \<longrightarrow>
            pathToCheck (slot t') = q \<and>
            in_flight t' = 1 \<and>
            posted t' = (if signalled (slot t) then posted t else posted t + 1)"
    using inv by (auto simp: checkPath_def in_flight_def split: if_splits)
  from inv cp gp st show ?thesis by simp
qed

theorem at_most_one_request_in_flight_witness:
  "run [Call_checkPath ''/a'', Call_checkPath ''/ab'', Deliver, Call_checkPath ''/abc'',
        Read_slot, Call_checkPath ''/abcd''] threads_init
     = Some \<lparr>slot = \<lparr>pathToCheck = ''/abcd'', signalled = True\<rparr>, posted = 1,
              worker = Probing ''/abc''\<rparr> \<and>
   in_flight \<lparr>slot = \<lparr>pathToCheck = ''/abcd'', signalled = True\<rparr>, posted = 1,
              worker = Probing ''/abc''\<rparr> = 1"
proof -
  have r: "run [Call_checkPath ''/a'', Call_checkPath ''/ab'', Deliver, Call_checkPath ''/abc'',
        Read_slot, Call_checkPath ''/abcd''] threads_init
     = Some \<lparr>slot = \<lparr>pathToCheck = ''/abcd'', signalled = True\<rparr>, posted = 1,
              worker = Probing ''/abc''\<rparr>"
    by (simp add: threads_init_def Intro_init_def checkPath_def getPathToCheck_def)
  from at_most_one_request_in_flight [OF r] r show ?thesis by simp
qed

subsection \<open>\<^verbatim>\<open>setStatus\<close>: the button and the free-space label\<close>

lemma QString_number_10: "QString_number 10 = ''10''"
  by (simp add: QString_number.simps digit_def)

lemma BLOCK_CHAIN_SIZE_unat: "unat BLOCK_CHAIN_SIZE = 10000000000"
  by (simp add: BLOCK_CHAIN_SIZE_def GB_BYTES_def)

lemma below_threshold: "(b < BLOCK_CHAIN_SIZE) = (unat b < 10000000000)"
  by (simp add: word_less_nat_alt BLOCK_CHAIN_SIZE_unat)

lemma unat_div_GB: "unat (b div GB_BYTES) = unat b div 1000000000"
  by (simp add: unat_div GB_BYTES_def)

lemma setStatus_OK_below:
  assumes "unat bytesAvailable < 10000000000"
  shows "setStatus ST_OK msg bytesAvailable ui =
           ui\<lparr>errorMessage_text := msg, errorMessage_styleSheet := '''',
              freeSpace_styleSheet := ''QLabel { color: #800000 }'',
              freeSpace_text := QString_number (unat bytesAvailable div 1000000000)
                                  @ ''GB of free space available (of 10GB needed).'',
              Ok_enabled := True\<rparr>"
  using assms
  by (simp add: setStatus_def Let_def ST_OK_def ST_ERROR_def unat_div_GB tr_def
        below_threshold BLOCK_CHAIN_SIZE_unat QString_number_10)

lemma setStatus_OK_at_least:
  assumes "10000000000 \<le> unat bytesAvailable"
  shows "setStatus ST_OK msg bytesAvailable ui =
           ui\<lparr>errorMessage_text := msg, errorMessage_styleSheet := '''',
              freeSpace_styleSheet := '''',
              freeSpace_text := QString_number (unat bytesAvailable div 1000000000)
                                  @ ''GB of free space available.'',
              Ok_enabled := True\<rparr>"
  using assms
  by (simp add: setStatus_def Let_def ST_OK_def ST_ERROR_def unat_div_GB tr_def
        below_threshold)

text \<open>
  C6. Whatever result \<^verbatim>\<open>setStatus\<close> is given, the OK button is enabled afterwards exactly
  when the status is not \<^verbatim>\<open>ST_ERROR\<close>: an \<^verbatim>\<open>ST_ERROR\<close> result disables it and an
  \<^verbatim>\<open>ST_OK\<close> result enables it, for every message, every byte count and every earlier
  state of the dialog.
\<close>

theorem setStatus_Ok_enabled:
  "Ok_enabled (setStatus st msg bytesAvailable ui) = (st \<noteq> ST_ERROR) \<and>
   \<not> Ok_enabled (setStatus ST_ERROR msg bytesAvailable ui) \<and>
   Ok_enabled (setStatus ST_OK msg bytesAvailable ui)"
  by (simp add: setStatus_def Let_def ST_OK_def ST_ERROR_def)

text \<open>
  C7. \<^verbatim>\<open>GB_BYTES\<close> is 1,000,000,000 and \<^verbatim>\<open>BLOCK_CHAIN_SIZE\<close> is ten times that. For an
  \<^verbatim>\<open>ST_OK\<close> result with fewer available bytes than that, the free-space label gets the
  warning style sheet and the text ends in \<^verbatim>\<open>(of 10GB needed).\<close>, and the OK button is
  enabled; with at least that many bytes the style sheet of the label is empty.
\<close>

theorem setStatus_space_warning:
  "GB_BYTES = 1000000000 \<and> BLOCK_CHAIN_SIZE = 10 * GB_BYTES \<and>
   (unat bytesAvailable < 10 * 1000000000 \<longrightarrow>
      freeSpace_styleSheet (setStatus ST_OK msg bytesAvailable ui) = ''QLabel { color: #800000 }'' \<and>
      freeSpace_text (setStatus ST_OK msg bytesAvailable ui)
        = QString_number (unat bytesAvailable div 1000000000)
            @ ''GB of free space available (of 10GB needed).'' \<and>
      Ok_enabled (setStatus ST_OK msg bytesAvailable ui)) \<and>
   (10 * 1000000000 \<le> unat bytesAvailable \<longrightarrow>
      freeSpace_styleSheet (setStatus ST_OK msg bytesAvailable ui) = '''' \<and>
      freeSpace_text (setStatus ST_OK msg bytesAvailable ui)
        = QString_number (unat bytesAvailable div 1000000000) @ ''GB of free space available.'' \<and>
      Ok_enabled (setStatus ST_OK msg bytesAvailable ui))"
proof (intro conjI impI)
  show "GB_BYTES = 1000000000"
    by (simp add: GB_BYTES_def)
  show "BLOCK_CHAIN_SIZE = 10 * GB_BYTES"
    by (simp add: BLOCK_CHAIN_SIZE_def)
next
  assume "unat bytesAvailable < 10 * 1000000000"
  then have lo: "unat bytesAvailable < 10000000000" by simp
  show "freeSpace_styleSheet (setStatus ST_OK msg bytesAvailable ui) = ''QLabel { color: #800000 }''"
    by (simp add: setStatus_OK_below [OF lo])
  show "freeSpace_text (setStatus ST_OK msg bytesAvailable ui)
        = QString_number (unat bytesAvailable div 1000000000)
            @ ''GB of free space available (of 10GB needed).''"
    by (simp add: setStatus_OK_below [OF lo])
  show "Ok_enabled (setStatus ST_OK msg bytesAvailable ui)"
    by (simp add: setStatus_OK_below [OF lo])
next
  assume "10 * 1000000000 \<le> unat bytesAvailable"
  then have hi: "10000000000 \<le> unat bytesAvailable" by simp
  show "freeSpace_styleSheet (setStatus ST_OK msg bytesAvailable ui) = ''''"
    by (simp add: setStatus_OK_at_least [OF hi])
  show "freeSpace_text (setStatus ST_OK msg bytesAvailable ui)
        = QString_number (unat bytesAvailable div 1000000000) @ ''GB of free space available.''"
    by (simp add: setStatus_OK_at_least [OF hi])
  show "Ok_enabled (setStatus ST_OK msg bytesAvailable ui)"
    by (simp add: setStatus_OK_at_least [OF hi])
qed

theorem setStatus_space_warning_witness:
  "unat (5000000000 :: 64 word) < 10 * 1000000000 \<and>
   freeSpace_styleSheet (setStatus ST_OK ''A new data directory will be created.'' 5000000000 ui0)
     = ''QLabel { color: #800000 }'' \<and>
   freeSpace_text (setStatus ST_OK ''A new data directory will be created.'' 5000000000 ui0)
     = ''5GB of free space available (of 10GB needed).'' \<and>
   Ok_enabled (setStatus ST_OK ''A new data directory will be created.'' 5000000000 ui0) \<and>
   10 * 1000000000 \<le> unat (10000000000 :: 64 word) \<and>
   freeSpace_styleSheet (setStatus ST_OK ''A new data directory will be created.'' 10000000000 ui0)
     = '''' \<and>
   freeSpace_text (setStatus ST_OK ''A new data directory will be created.'' 10000000000 ui0)
     = ''10GB of free space available.''"
  using setStatus_space_warning [of 5000000000 "''A new data directory will be created.''" ui0]
    setStatus_space_warning [of 10000000000 "''A new data directory will be created.''" ui0]
  by (simp add: QString_number.simps digit_def)

text \<open>
  C10. For a result with status \<^verbatim>\<open>ST_ERROR\<close>, \<^verbatim>\<open>setStatus\<close> sets the text of the
  free-space label to the empty string, and the dialog it leaves is the same for every
  byte count: the count of an error reply is shown nowhere. The error label shows the
  message after \<^verbatim>\<open>Error: \<close>.
\<close>

theorem setStatus_error_no_free_space:
  "freeSpace_text (setStatus ST_ERROR msg bytesAvailable ui) = '''' \<and>
   setStatus ST_ERROR msg bytesAvailable ui = setStatus ST_ERROR msg bytesAvailable' ui \<and>
   errorMessage_text (setStatus ST_ERROR msg bytesAvailable ui) = ''Error: '' @ msg"
  by (simp add: setStatus_def Let_def ST_OK_def ST_ERROR_def tr_def)

subsection \<open>The walk to the first parent that exists\<close>

lemma has_parent_path_length: "has_parent_path p = (2 \<le> length p)"
  by (cases p rule: rev_cases) (auto simp: has_parent_path_def parent_path_def Suc_le_eq)

lemma parent_path_take: "k \<le> length p \<Longrightarrow> parent_path (take k p) = take (k - 1) p"
  by (simp add: parent_path_def butlast_take)

lemma find_parent_no_parent: "\<not> has_parent_path p \<Longrightarrow> find_parent fs p = Inr p"
  by (simp add: find_parent.simps)

lemma find_parent_exists:
  "fs_exists fs p = Inr True \<Longrightarrow> find_parent fs p = Inr p"
  by (simp add: find_parent.simps)

lemma find_parent_missing:
  "has_parent_path p \<Longrightarrow> fs_exists fs p = Inr False \<Longrightarrow>
     find_parent fs p = find_parent fs (parent_path p)"
  by (subst find_parent.simps) simp

lemma find_parent_throws:
  "has_parent_path p \<Longrightarrow> fs_exists fs p = Inl e \<Longrightarrow> find_parent fs p = Inl e"
  by (subst find_parent.simps) simp

lemma find_parent_walk:
  assumes "1 \<le> k" and "fs_exists fs (take k P) = Inr True"
    and "\<forall>j. k < j \<and> j \<le> length P \<longrightarrow> fs_exists fs (take j P) = Inr False"
  shows "k \<le> j \<Longrightarrow> j \<le> length P \<Longrightarrow> find_parent fs (take j P) = Inr (take k P)"
proof (induction j rule: less_induct)
  case (less j)
  show ?case
  proof (cases "j = k")
    case True
    then show ?thesis using assms(2) by (simp add: find_parent_exists)
  next
    case False
    with less.prems have kj: "k < j" by simp
    with assms(1) less.prems have hp: "has_parent_path (take j P)"
      by (simp add: has_parent_path_length)
    from kj less.prems assms(3) have "fs_exists fs (take j P) = Inr False" by simp
    with hp have "find_parent fs (take j P) = find_parent fs (parent_path (take j P))"
      by (rule find_parent_missing)
    also have "\<dots> = find_parent fs (take (j - 1) P)"
      using less.prems by (simp add: parent_path_take)
    also have "\<dots> = Inr (take k P)"
      using kj less.prems by (intro less.IH) auto
    finally show ?thesis .
  qed
qed

lemma find_parent_nearest:
  assumes "nearest_existing_ancestor fs P A"
  shows "find_parent fs P = Inr A"
proof -
  from assms obtain k where k: "1 \<le> k" "k \<le> length P" "A = take k P"
    "fs_exists fs (take k P) = Inr True"
    "\<forall>j. k < j \<and> j \<le> length P \<longrightarrow> fs_exists fs (take j P) = Inr False"
    unfolding nearest_existing_ancestor_def by fastforce
  from find_parent_walk [OF k(1) k(4) k(5) k(2) order_refl] k(3)
  show ?thesis by simp
qed

lemma find_parent_fs_space:
  "find_parent (fs\<lparr>fs_space := f\<rparr>) p = find_parent fs p"
proof (induction fs p rule: find_parent.induct)
  case (1 fs parentDir)
  show ?case
  proof (cases "has_parent_path parentDir")
    case False
    then show ?thesis by (simp add: find_parent_no_parent)
  next
    case True
    show ?thesis
    proof (cases "fs_exists fs parentDir")
      case (Inl e)
      with True show ?thesis by (simp add: find_parent_throws)
    next
      case (Inr ex)
      show ?thesis
      proof (cases ex)
        case True
        with Inr show ?thesis by (simp add: find_parent_exists)
      next
        case False
        with Inr True "1.IH" [OF True Inr] show ?thesis
          by (simp add: find_parent_missing)
      qed
    qed
  qed
qed

lemma find_parent_stops:
  "find_parent fs p = Inr q \<Longrightarrow>
     (\<exists>k. k \<le> length p \<and> q = take k p \<and>
          (\<forall>j. k < j \<and> j \<le> length p \<longrightarrow> fs_exists fs (take j p) = Inr False)) \<and>
     (\<not> has_parent_path q \<or> fs_exists fs q = Inr True)"
proof (induction fs p rule: find_parent.induct)
  case (1 fs parentDir)
  show ?case
  proof (cases "has_parent_path parentDir")
    case False
    with "1.prems" have "q = parentDir" by (simp add: find_parent_no_parent)
    with False show ?thesis by (auto intro: exI [of _ "length parentDir"])
  next
    case hp: True
    show ?thesis
    proof (cases "fs_exists fs parentDir")
      case (Inl e)
      with hp "1.prems" show ?thesis by (simp add: find_parent_throws)
    next
      case (Inr ex)
      show ?thesis
      proof (cases ex)
        case True
        with Inr "1.prems" have "q = parentDir" by (simp add: find_parent_exists)
        with True Inr show ?thesis by (auto intro: exI [of _ "length parentDir"])
      next
        case False
        with Inr hp "1.prems" have fp: "find_parent fs (parent_path parentDir) = Inr q"
          by (simp add: find_parent_missing)
        from "1.IH" [OF hp Inr False fp] obtain k where
          k: "k \<le> length (parent_path parentDir)" "q = take k (parent_path parentDir)"
            "\<forall>j. k < j \<and> j \<le> length (parent_path parentDir) \<longrightarrow>
                 fs_exists fs (take j (parent_path parentDir)) = Inr False"
          and stop: "\<not> has_parent_path q \<or> fs_exists fs q = Inr True"
          by blast
        have len: "length (parent_path parentDir) = length parentDir - 1"
          by (simp add: parent_path_def)
        have tk: "\<And>j. j \<le> length parentDir - 1 \<Longrightarrow>
                    take j (parent_path parentDir) = take j parentDir"
          by (simp add: parent_path_def butlast_conv_take)
        have "k \<le> length parentDir" using k(1) len by simp
        moreover have "q = take k parentDir" using k(1,2) len tk by simp
        moreover have "\<forall>j. k < j \<and> j \<le> length parentDir \<longrightarrow>
                         fs_exists fs (take j parentDir) = Inr False"
        proof (intro allI impI)
          fix j assume j: "k < j \<and> j \<le> length parentDir"
          show "fs_exists fs (take j parentDir) = Inr False"
          proof (cases "j = length parentDir")
            case True
            with Inr False show ?thesis by simp
          next
            case False
            with j have "j \<le> length parentDir - 1" by arith
            with j k(3) len tk show ?thesis by simp
          qed
        qed
        ultimately show ?thesis using stop by blast
      qed
    qed
  qed
qed

subsection \<open>The outcomes of \<^verbatim>\<open>check()\<close>\<close>

lemma check_escape:
  "find_parent fs (to_path fs (pathToCheck s)) = Inl e \<Longrightarrow>
     check fs s = (Exception e, s\<lparr>signalled := False\<rparr>)"
  by (simp add: check_def getPathToCheck_def Let_def)

lemma check_space_throws:
  "find_parent fs (to_path fs (pathToCheck s)) = Inr parentDir \<Longrightarrow>
   fs_space fs parentDir = Inl e \<Longrightarrow>
     check fs s = (Reply \<lparr>status = ST_ERROR, message = ''Cannot create data directory here.'',
                          available = 0\<rparr>, s\<lparr>signalled := False\<rparr>)"
  by (simp add: check_def getPathToCheck_def try_block_def Let_def tr_def)

lemma check_exists_throws:
  "find_parent fs (to_path fs (pathToCheck s)) = Inr parentDir \<Longrightarrow>
   fs_space fs parentDir = Inr n \<Longrightarrow>
   fs_exists fs (to_path fs (pathToCheck s)) = Inl e \<Longrightarrow>
     check fs s = (Reply \<lparr>status = ST_ERROR, message = ''Cannot create data directory here.'',
                          available = n\<rparr>, s\<lparr>signalled := False\<rparr>)"
  by (simp add: check_def getPathToCheck_def try_block_def Let_def tr_def)

lemma check_is_directory_throws:
  "find_parent fs (to_path fs (pathToCheck s)) = Inr parentDir \<Longrightarrow>
   fs_space fs parentDir = Inr n \<Longrightarrow>
   fs_exists fs (to_path fs (pathToCheck s)) = Inr True \<Longrightarrow>
   fs_is_directory fs (to_path fs (pathToCheck s)) = Inl e \<Longrightarrow>
     check fs s = (Reply \<lparr>status = ST_ERROR, message = ''Cannot create data directory here.'',
                          available = n\<rparr>, s\<lparr>signalled := False\<rparr>)"
  by (simp add: check_def getPathToCheck_def try_block_def Let_def tr_def)

lemma check_directory:
  "find_parent fs (to_path fs (pathToCheck s)) = Inr parentDir \<Longrightarrow>
   fs_space fs parentDir = Inr n \<Longrightarrow>
   fs_exists fs (to_path fs (pathToCheck s)) = Inr True \<Longrightarrow>
   fs_is_directory fs (to_path fs (pathToCheck s)) = Inr True \<Longrightarrow>
     check fs s =
       (Reply \<lparr>status = ST_OK,
               message = ''Directory already exists. Add <code>'' @ native_separator fs
                 @ ''name</code> if you intend to create a new directory here.'',
               available = n\<rparr>, s\<lparr>signalled := False\<rparr>)"
  by (simp add: check_def getPathToCheck_def try_block_def Let_def tr_def)

lemma check_not_directory:
  "find_parent fs (to_path fs (pathToCheck s)) = Inr parentDir \<Longrightarrow>
   fs_space fs parentDir = Inr n \<Longrightarrow>
   fs_exists fs (to_path fs (pathToCheck s)) = Inr True \<Longrightarrow>
   fs_is_directory fs (to_path fs (pathToCheck s)) = Inr False \<Longrightarrow>
     check fs s =
       (Reply \<lparr>status = ST_ERROR, message = ''Path already exists, and is not a directory.'',
               available = n\<rparr>, s\<lparr>signalled := False\<rparr>)"
  by (simp add: check_def getPathToCheck_def try_block_def Let_def tr_def)

lemma check_new:
  "find_parent fs (to_path fs (pathToCheck s)) = Inr parentDir \<Longrightarrow>
   fs_space fs parentDir = Inr n \<Longrightarrow>
   fs_exists fs (to_path fs (pathToCheck s)) = Inr False \<Longrightarrow>
     check fs s =
       (Reply \<lparr>status = ST_OK, message = ''A new data directory will be created.'',
               available = n\<rparr>, s\<lparr>signalled := False\<rparr>)"
  by (simp add: check_def getPathToCheck_def try_block_def Let_def tr_def)

subsection \<open>The three replies of a check whose queries return\<close>

lemma posix_examples:
  "posix_path ''/data'' = [''/'', ''data'']"
  "posix_path ''data'' = [''data'']"
  "posix_path ''/existing/dir'' = [''/'', ''existing'', ''dir'']"
  "posix_path ''/existing/file.txt'' = [''/'', ''existing'', ''file.txt'']"
  "posix_path ''/nonexistent/newdir'' = [''/'', ''nonexistent'', ''newdir'']"
  by (simp_all add: posix_path_def)

text \<open>
  C2, as amended. Provided that no query throws (the walk to the first existing parent
  returns, \<^verbatim>\<open>fs::space\<close> returns for the directory it found, \<^verbatim>\<open>fs::exists\<close> returns
  for the candidate path and, when that exists, \<^verbatim>\<open>fs::is_directory\<close> returns for it),
  \<^verbatim>\<open>check()\<close> replies in exactly one of three ways: for an existing directory
  \<^verbatim>\<open>ST_OK\<close> with the hint to add a subdirectory name; for an existing path that is not
  a directory \<^verbatim>\<open>ST_ERROR\<close> with \<^verbatim>\<open>Path already exists, and is not a directory.\<close>;
  for a path that does not exist \<^verbatim>\<open>ST_OK\<close> with
  \<^verbatim>\<open>A new data directory will be created.\<close>; each time with the available bytes of the
  directory the walk found.
\<close>

theorem check_classification:
  assumes "find_parent fs (to_path fs (pathToCheck s)) = Inr parentDir"
    and "fs_space fs parentDir = Inr n"
    and "fs_exists fs (to_path fs (pathToCheck s)) = Inr ex"
    and "ex \<longrightarrow> fs_is_directory fs (to_path fs (pathToCheck s)) = Inr isdir"
  shows "fst (check fs s) =
           Reply (if ex
                  then (if isdir
                        then \<lparr>status = ST_OK,
                               message = ''Directory already exists. Add <code>''
                                 @ native_separator fs
                                 @ ''name</code> if you intend to create a new directory here.'',
                               available = n\<rparr>
                        else \<lparr>status = ST_ERROR,
                               message = ''Path already exists, and is not a directory.'',
                               available = n\<rparr>)
                  else \<lparr>status = ST_OK, message = ''A new data directory will be created.'',
                         available = n\<rparr>)"
proof (cases ex)
  case False
  with assms show ?thesis by (simp add: check_new)
next
  case True
  with assms have d: "fs_is_directory fs (to_path fs (pathToCheck s)) = Inr isdir" by simp
  show ?thesis
  proof (cases isdir)
    case True
    with \<open>ex\<close> d assms(1,2,3) show ?thesis by (simp add: check_directory)
  next
    case False
    with \<open>ex\<close> d assms(1,2,3) show ?thesis by (simp add: check_not_directory)
  qed
qed

lemma scenario_dir: "find_parent fs_scenario (posix_path ''/existing/dir'') = Inr [''/'', ''existing'', ''dir'']"
  by (simp add: posix_examples find_parent_exists fs_scenario_def)

lemma scenario_file: "find_parent fs_scenario (posix_path ''/existing/file.txt'') = Inr [''/'', ''existing'', ''file.txt'']"
  by (simp add: posix_examples find_parent_exists fs_scenario_def)

lemma scenario_new: "find_parent fs_scenario (posix_path ''/nonexistent/newdir'') = Inr [''/'']"
  by (simp add: posix_examples find_parent.simps has_parent_path_def parent_path_def fs_scenario_def)

theorem check_classification_witness:
  "fst (check fs_scenario (asked ''/existing/dir'')) =
     Reply \<lparr>status = ST_OK,
            message = ''Directory already exists. Add <code>/name</code> if you intend to create a new directory here.'',
            available = 5000000000\<rparr> \<and>
   fst (check fs_scenario (asked ''/existing/file.txt'')) =
     Reply \<lparr>status = ST_ERROR, message = ''Path already exists, and is not a directory.'',
            available = 5000000000\<rparr> \<and>
   fst (check fs_scenario (asked ''/nonexistent/newdir'')) =
     Reply \<lparr>status = ST_OK, message = ''A new data directory will be created.'',
            available = 5000000000\<rparr>"
proof -
  have a: "to_path fs_scenario = posix_path" by (simp add: fs_scenario_def)
  have 1: "fst (check fs_scenario (asked ''/existing/dir'')) =
     Reply \<lparr>status = ST_OK,
            message = ''Directory already exists. Add <code>/name</code> if you intend to create a new directory here.'',
            available = 5000000000\<rparr>"
    using check_classification [of fs_scenario "asked ''/existing/dir''"
        "[''/'', ''existing'', ''dir'']" 5000000000 True True]
    by (simp add: asked_def a scenario_dir) (simp add: fs_scenario_def posix_examples)
  have 2: "fst (check fs_scenario (asked ''/existing/file.txt'')) =
     Reply \<lparr>status = ST_ERROR, message = ''Path already exists, and is not a directory.'',
            available = 5000000000\<rparr>"
    using check_classification [of fs_scenario "asked ''/existing/file.txt''"
        "[''/'', ''existing'', ''file.txt'']" 5000000000 True False]
    by (simp add: asked_def a scenario_file) (simp add: fs_scenario_def posix_examples)
  have 3: "fst (check fs_scenario (asked ''/nonexistent/newdir'')) =
     Reply \<lparr>status = ST_OK, message = ''A new data directory will be created.'',
            available = 5000000000\<rparr>"
    using check_classification [of fs_scenario "asked ''/nonexistent/newdir''"
        "[''/'']" 5000000000 False False]
    by (simp add: asked_def a scenario_new) (simp add: fs_scenario_def posix_examples)
  from 1 2 3 show ?thesis by simp
qed

text \<open>
  C2 as stated fails: the relative path \<^verbatim>\<open>newdir\<close> does not exist and has no parent, so
  the walk stops at the path itself, \<^verbatim>\<open>fs::space\<close> throws for it, and the reply is
  \<^verbatim>\<open>ST_ERROR\<close> with \<^verbatim>\<open>Cannot create data directory here.\<close>: a fourth kind of reply, for
  a path that does not exist.
\<close>

theorem check_missing_relative_path_error:
  "to_path fs_scenario ''newdir'' = [''newdir''] \<and>
   fs_exists fs_scenario [''newdir''] = Inr False \<and>
   fst (check fs_scenario (asked ''newdir'')) =
     Reply \<lparr>status = ST_ERROR, message = ''Cannot create data directory here.'',
            available = 0\<rparr> \<and>
   ST_ERROR \<noteq> ST_OK"
  by (simp add: fs_scenario_def asked_def check_def getPathToCheck_def try_block_def
        posix_path_def find_parent_no_parent has_parent_path_def parent_path_def
        tr_def ST_ERROR_def ST_OK_def)

subsection \<open>The free space reported is that of the nearest existing ancestor\<close>

lemma try_block_fs_space:
  "parentDir \<noteq> P \<Longrightarrow>
     try_block (fs\<lparr>fs_space := (fs_space fs)(P := x)\<rparr>) parentDir dataDir l
       = try_block fs parentDir dataDir l"
  by (simp add: try_block_def Let_def split: sum.splits)

lemma check_fs_space:
  assumes "find_parent fs (to_path fs (pathToCheck s)) = Inr A" and "A \<noteq> P"
  shows "check (fs\<lparr>fs_space := (fs_space fs)(P := x)\<rparr>) s = check fs s"
  using assms by (simp add: check_def getPathToCheck_def find_parent_fs_space try_block_fs_space)

lemma check_available:
  assumes "find_parent fs (to_path fs (pathToCheck s)) = Inr A"
  shows "\<exists>r. fst (check fs s) = Reply r \<and>
             available r = (case fs_space fs A of Inr n \<Rightarrow> n | Inl e \<Rightarrow> 0)"
  using assms
  by (auto simp: check_def getPathToCheck_def try_block_def Let_def
        split: sum.splits option.splits)

text \<open>
  C3. The walk of \<^verbatim>\<open>check()\<close> goes upward from the candidate path \<open>P\<close> and, when it
  returns, has stopped at a prefix of \<open>P\<close> that exists or has no parent, with every longer
  prefix of \<open>P\<close> not existing. When \<open>A\<close> is the nearest existing ancestor of \<open>P\<close>, the walk
  stops at \<open>A\<close>, \<^verbatim>\<open>check()\<close> emits a reply, and the available bytes of the reply are what
  \<^verbatim>\<open>fs::space\<close> returns for \<open>A\<close> (and 0 when that query throws). When \<open>A\<close> is not \<open>P\<close>
  itself, the result of \<^verbatim>\<open>fs::space\<close> for \<open>P\<close> has no influence on what
  \<^verbatim>\<open>check()\<close> does.
\<close>

theorem check_reports_space_of_nearest_existing_ancestor:
  "(\<forall>Q. find_parent fs (to_path fs (pathToCheck s)) = Inr Q \<longrightarrow>
        (\<exists>k. k \<le> length (to_path fs (pathToCheck s)) \<and> Q = take k (to_path fs (pathToCheck s)) \<and>
             (\<forall>j. k < j \<and> j \<le> length (to_path fs (pathToCheck s)) \<longrightarrow>
                  fs_exists fs (take j (to_path fs (pathToCheck s))) = Inr False)) \<and>
        (\<not> has_parent_path Q \<or> fs_exists fs Q = Inr True)) \<and>
   (nearest_existing_ancestor fs (to_path fs (pathToCheck s)) A \<longrightarrow>
      find_parent fs (to_path fs (pathToCheck s)) = Inr A \<and>
      (\<exists>r. fst (check fs s) = Reply r \<and>
           available r = (case fs_space fs A of Inr n \<Rightarrow> n | Inl e \<Rightarrow> 0)) \<and>
      (A \<noteq> to_path fs (pathToCheck s) \<longrightarrow>
         (\<forall>x. check (fs\<lparr>fs_space := (fs_space fs)(to_path fs (pathToCheck s) := x)\<rparr>) s
                = check fs s)))"
proof (intro conjI allI impI)
  fix Q
  assume "find_parent fs (to_path fs (pathToCheck s)) = Inr Q"
  from find_parent_stops [OF this]
  show "\<exists>k. k \<le> length (to_path fs (pathToCheck s)) \<and> Q = take k (to_path fs (pathToCheck s)) \<and>
             (\<forall>j. k < j \<and> j \<le> length (to_path fs (pathToCheck s)) \<longrightarrow>
                  fs_exists fs (take j (to_path fs (pathToCheck s))) = Inr False)"
    and "\<not> has_parent_path Q \<or> fs_exists fs Q = Inr True"
    by blast+
next
  assume "nearest_existing_ancestor fs (to_path fs (pathToCheck s)) A"
  then show fp: "find_parent fs (to_path fs (pathToCheck s)) = Inr A"
    by (rule find_parent_nearest)
  from fp show "\<exists>r. fst (check fs s) = Reply r \<and>
           available r = (case fs_space fs A of Inr n \<Rightarrow> n | Inl e \<Rightarrow> 0)"
    by (rule check_available)
  fix x
  assume "A \<noteq> to_path fs (pathToCheck s)"
  with fp show "check (fs\<lparr>fs_space := (fs_space fs)(to_path fs (pathToCheck s) := x)\<rparr>) s
                = check fs s"
    by (rule check_fs_space)
qed

lemma scenario_nearest:
  "nearest_existing_ancestor fs_scenario [''/'', ''nonexistent'', ''newdir''] [''/'']"
proof -
  have "\<forall>j. 1 < j \<and> j \<le> 3 \<longrightarrow>
          fs_exists fs_scenario (take j [''/'', ''nonexistent'', ''newdir'']) = Inr False"
  proof (intro allI impI)
    fix j :: nat assume "1 < j \<and> j \<le> 3"
    then have "j = 2 \<or> j = 3" by arith
    then show "fs_exists fs_scenario (take j [''/'', ''nonexistent'', ''newdir'']) = Inr False"
      by (auto simp: fs_scenario_def)
  qed
  then show ?thesis
    unfolding nearest_existing_ancestor_def
    by (intro bexI [of _ 1]) (simp_all add: fs_scenario_def)
qed

theorem check_reports_space_of_nearest_existing_ancestor_witness:
  "nearest_existing_ancestor fs_scenario (to_path fs_scenario ''/nonexistent/newdir'') [''/''] \<and>
   find_parent fs_scenario (to_path fs_scenario ''/nonexistent/newdir'') = Inr [''/''] \<and>
   fs_space fs_scenario [''/''] = Inr 5000000000 \<and>
   fs_space fs_scenario (to_path fs_scenario ''/nonexistent/newdir'') = Inl filesystem_error \<and>
   (\<exists>r. fst (check fs_scenario (asked ''/nonexistent/newdir'')) = Reply r \<and>
        available r = 5000000000)"
proof -
  have p: "to_path fs_scenario (pathToCheck (asked ''/nonexistent/newdir''))
             = [''/'', ''nonexistent'', ''newdir'']"
    by (simp add: fs_scenario_def asked_def posix_examples)
  have sp: "fs_space fs_scenario [''/''] = Inr 5000000000"
     "fs_space fs_scenario [''/'', ''nonexistent'', ''newdir''] = Inl filesystem_error"
    by (simp_all add: fs_scenario_def)
  from check_reports_space_of_nearest_existing_ancestor
         [of fs_scenario "asked ''/nonexistent/newdir''" "[''/'']"]
       scenario_nearest p sp
  show ?thesis by (simp add: asked_def)
qed

subsection \<open>Queries that throw\<close>

text \<open>
  C4, as amended. Let the walk to the first existing parent have returned. When
  \<^verbatim>\<open>fs::space\<close> throws, \<^verbatim>\<open>check()\<close> emits a reply with status \<^verbatim>\<open>ST_ERROR\<close>, the
  message \<^verbatim>\<open>Cannot create data directory here.\<close> and zero available bytes. When
  \<^verbatim>\<open>fs::space\<close> has returned and \<^verbatim>\<open>fs::exists\<close> or \<^verbatim>\<open>fs::is_directory\<close> on the
  candidate path throws inside the \<^verbatim>\<open>try\<close> block, the reply has the same status and
  message, and its available bytes are those that \<^verbatim>\<open>fs::space\<close> returned. In both
  cases the exception is caught and a reply is emitted.
\<close>

theorem check_probe_failure_reply:
  assumes "find_parent fs (to_path fs (pathToCheck s)) = Inr parentDir"
  shows "(\<forall>e. fs_space fs parentDir = Inl e \<longrightarrow>
            fst (check fs s) =
              Reply \<lparr>status = ST_ERROR, message = ''Cannot create data directory here.'',
                     available = 0\<rparr>) \<and>
         (\<forall>n e. fs_space fs parentDir = Inr n \<and>
                 (fs_exists fs (to_path fs (pathToCheck s)) = Inl e \<or>
                  fs_exists fs (to_path fs (pathToCheck s)) = Inr True \<and>
                  fs_is_directory fs (to_path fs (pathToCheck s)) = Inl e) \<longrightarrow>
            fst (check fs s) =
              Reply \<lparr>status = ST_ERROR, message = ''Cannot create data directory here.'',
                     available = n\<rparr>)"
  using assms
  by (auto simp: check_space_throws check_exists_throws check_is_directory_throws)

theorem check_probe_failure_reply_witness:
  "find_parent fs_space_throws (to_path fs_space_throws ''/data'') = Inr [''/'', ''data''] \<and>
   fs_space fs_space_throws [''/'', ''data''] = Inl filesystem_error \<and>
   fst (check fs_space_throws (asked ''/data'')) =
     Reply \<lparr>status = ST_ERROR, message = ''Cannot create data directory here.'',
            available = 0\<rparr> \<and>
   find_parent fs_exists_throws (to_path fs_exists_throws ''data'') = Inr [''data''] \<and>
   fs_space fs_exists_throws [''data''] = Inr 5000000000 \<and>
   fs_exists fs_exists_throws (to_path fs_exists_throws ''data'') = Inl filesystem_error \<and>
   fst (check fs_exists_throws (asked ''data'')) =
     Reply \<lparr>status = ST_ERROR, message = ''Cannot create data directory here.'',
            available = 5000000000\<rparr>"
proof -
  have a: "find_parent fs_space_throws (to_path fs_space_throws (pathToCheck (asked ''/data'')))
             = Inr [''/'', ''data'']"
    by (simp add: fs_space_throws_def asked_def posix_examples find_parent_exists)
  have b: "find_parent fs_exists_throws (to_path fs_exists_throws (pathToCheck (asked ''data'')))
             = Inr [''data'']"
    by (simp add: fs_exists_throws_def asked_def posix_examples find_parent_no_parent
          has_parent_path_def parent_path_def)
  have c: "fs_space fs_space_throws [''/'', ''data''] = Inl filesystem_error"
    "fs_space fs_exists_throws [''data''] = Inr 5000000000"
    "fs_exists fs_exists_throws (to_path fs_exists_throws (pathToCheck (asked ''data'')))
       = Inl filesystem_error"
    by (simp_all add: fs_space_throws_def fs_exists_throws_def)
  from check_probe_failure_reply [OF a] check_probe_failure_reply [OF b] a b c
  show ?thesis by (simp add: asked_def)
qed

text \<open>
  C4 as stated fails: for the relative path \<^verbatim>\<open>data\<close>, which has no parent, the walk
  queries nothing; \<^verbatim>\<open>fs::space\<close> returns 5,000,000,000 and the existence test then
  throws. The reply is \<^verbatim>\<open>ST_ERROR\<close> with 5,000,000,000 available bytes, not zero.
\<close>

theorem check_error_reply_nonzero_bytes:
  "fs_exists fs_exists_throws (to_path fs_exists_throws ''data'') = Inl filesystem_error \<and>
   fst (check fs_exists_throws (asked ''data'')) =
     Reply \<lparr>status = ST_ERROR, message = ''Cannot create data directory here.'',
            available = 5000000000\<rparr> \<and>
   (5000000000 :: 64 word) \<noteq> 0"
  by (simp add: fs_exists_throws_def asked_def check_def getPathToCheck_def try_block_def
        posix_examples find_parent_no_parent has_parent_path_def parent_path_def tr_def)

text \<open>
  The loop of the walk stands before the \<^verbatim>\<open>try\<close> block: when \<^verbatim>\<open>fs::exists\<close> throws
  for a path with a parent, the exception leaves \<^verbatim>\<open>check()\<close> and no reply is emitted.
\<close>

lemma check_exception_in_walk_escapes:
  "fs_exists fs_exists_throws (to_path fs_exists_throws ''/data'') = Inl filesystem_error \<and>
   fst (check fs_exists_throws (asked ''/data'')) = Exception filesystem_error"
  by (simp add: fs_exists_throws_def asked_def check_def getPathToCheck_def
        posix_examples find_parent_throws has_parent_path_def parent_path_def)

subsection \<open>\<^verbatim>\<open>pickDataDirectory\<close>: the chooser loop\<close>

lemma choose_loop_Break:
  "choose_loop env user w = Break d w1 \<Longrightarrow>
     mapArgs w1 = mapArgs w \<and> settings w1 = settings w \<and> exec_calls w < exec_calls w1 \<and>
     (\<exists>c. c \<noteq> 0 \<and> (c, d) \<in> set user) \<and> (\<exists>made. create_directory env d = Inr made)"
proof (induction user arbitrary: w)
  case Nil
  then show ?case by simp
next
  case (Cons a user)
  obtain code dir where a: "a = (code, dir)" by (cases a)
  show ?case
  proof (cases "code = 0")
    case True
    with Cons.prems a show ?thesis by simp
  next
    case nz: False
    show ?thesis
    proof (cases "create_directory env dir")
      case (Inr made)
      with Cons.prems a nz show ?thesis by (auto simp: Let_def split: if_splits)
    next
      case (Inl e)
      let ?w = "w\<lparr>exec_calls := exec_calls w + 1,
                   critical := critical w @
                     [arg (tr ''Error: Specified data directory \"%1\" can not be created.'') dir]\<rparr>"
      from Cons.prems a nz Inl have "choose_loop env user ?w = Break d w1"
        by (simp add: Let_def)
      from Cons.IH [OF this] show ?thesis by auto
    qed
  qed
qed

lemma choose_loop_Exit_called:
  "choose_loop env user w = Exit_called c w1 \<Longrightarrow>
     c = 0 \<and> mapArgs w1 = mapArgs w \<and> settings w1 = settings w \<and> created w1 = created w"
proof (induction user arbitrary: w)
  case Nil
  then show ?case by simp
next
  case (Cons a user)
  obtain code dir where a: "a = (code, dir)" by (cases a)
  show ?case
  proof (cases "code = 0")
    case True
    with Cons.prems a show ?thesis by auto
  next
    case nz: False
    show ?thesis
    proof (cases "create_directory env dir")
      case (Inr made)
      with Cons.prems a nz show ?thesis by (auto simp: Let_def split: if_splits)
    next
      case (Inl e)
      let ?w = "w\<lparr>exec_calls := exec_calls w + 1,
                   critical := critical w @
                     [arg (tr ''Error: Specified data directory \"%1\" can not be created.'') dir]\<rparr>"
      from Cons.prems a nz Inl have "choose_loop env user ?w = Exit_called c w1"
        by (simp add: Let_def)
      from Cons.IH [OF this] show ?thesis by auto
    qed
  qed
qed

lemma choose_loop_cancel:
  "\<forall>(c, d) \<in> set pre. c \<noteq> 0 \<and> (\<exists>e. create_directory env d = Inl e) \<Longrightarrow>
     \<exists>w1. choose_loop env (pre @ (0, t) # rest) w = Exit_called 0 w1 \<and>
          mapArgs w1 = mapArgs w \<and> settings w1 = settings w \<and> created w1 = created w \<and>
          exec_calls w1 = exec_calls w + length pre + 1"
proof (induction pre arbitrary: w)
  case Nil
  then show ?case by simp
next
  case (Cons a pre)
  obtain code dir where a: "a = (code, dir)" by (cases a)
  from Cons.prems a obtain e where nz: "code \<noteq> 0" and e: "create_directory env dir = Inl e"
    by auto
  let ?w = "w\<lparr>exec_calls := exec_calls w + 1,
               critical := critical w @
                 [arg (tr ''Error: Specified data directory \"%1\" can not be created.'') dir]\<rparr>"
  from Cons.prems have "\<forall>(c, d) \<in> set pre. c \<noteq> 0 \<and> (\<exists>e. create_directory env d = Inl e)"
    by simp
  from Cons.IH [OF this, of ?w] obtain w1 where
    "choose_loop env (pre @ (0, t) # rest) ?w = Exit_called 0 w1"
    "mapArgs w1 = mapArgs w" "settings w1 = settings w" "created w1 = created w"
    "exec_calls w1 = exec_calls w + length pre + 2"
    by auto
  with a nz e show ?case by (simp add: Let_def)
qed

text \<open>
  C9. When the chooser is shown and the user cancels it (\<^verbatim>\<open>exec()\<close> returns 0), at once
  or after any number of accepted directories that could not be created,
  \<^verbatim>\<open>pickDataDirectory\<close> ends the process with \<^verbatim>\<open>exit(0)\<close>; the answers after the
  cancellation are never asked for. At that point no directory has been created, the
  settings are what they were and the options are what they were. Conversely, whenever
  \<^verbatim>\<open>pickDataDirectory\<close> exits the process, the code is 0 and nothing of these has
  changed.
\<close>

theorem pickDataDirectory_cancel_exits_0:
  "(chooser_shown env w \<and>
    (\<forall>(c, d) \<in> set pre. c \<noteq> 0 \<and> (\<exists>e. create_directory env d = Inl e)) \<longrightarrow>
      (\<exists>w'. pickDataDirectory env (pre @ (0, t) # rest) w = Exited 0 w' \<and>
            created w' = created w \<and> settings w' = settings w \<and> mapArgs w' = mapArgs w \<and>
            exec_calls w' = exec_calls w + length pre + 1)) \<and>
   (\<forall>c w'. pickDataDirectory env user w = Exited c w' \<longrightarrow>
      c = 0 \<and> created w' = created w \<and> settings w' = settings w \<and> mapArgs w' = mapArgs w)"
proof (intro conjI allI impI)
  assume h: "chooser_shown env w \<and>
    (\<forall>(c, d) \<in> set pre. c \<noteq> 0 \<and> (\<exists>e. create_directory env d = Inl e))"
  then obtain ex where g: "GetArg (mapArgs w) ''-datadir'' '''' = ''''"
    and ex: "exists_str env
              (case settings w ''strDataDir'' of Some v \<Rightarrow> v | None \<Rightarrow> GetDefaultDataDir env)
            = Inr ex" "\<not> ex \<or> choosedatadir env"
    by (auto simp: chooser_shown_def split: sum.splits)
  from h have "\<forall>(c, d) \<in> set pre. c \<noteq> 0 \<and> (\<exists>e. create_directory env d = Inl e)" by simp
  from choose_loop_cancel [OF this, of t rest w] obtain w1 where
    w1: "choose_loop env (pre @ (0, t) # rest) w = Exit_called 0 w1"
    "mapArgs w1 = mapArgs w" "settings w1 = settings w" "created w1 = created w"
    "exec_calls w1 = exec_calls w + length pre + 1"
    by blast
  from g ex w1(1) have "pickDataDirectory env (pre @ (0, t) # rest) w = Exited 0 w1"
    by (auto simp: pickDataDirectory_def Let_def)
  with w1 show "\<exists>w'. pickDataDirectory env (pre @ (0, t) # rest) w = Exited 0 w' \<and>
            created w' = created w \<and> settings w' = settings w \<and> mapArgs w' = mapArgs w \<and>
            exec_calls w' = exec_calls w + length pre + 1"
    by simp
next
  fix c w'
  assume "pickDataDirectory env user w = Exited c w'"
  then have "choose_loop env user w = Exit_called c w'"
    by (auto simp: pickDataDirectory_def Let_def split: if_splits sum.splits chosen.splits)
  from choose_loop_Exit_called [OF this]
  show "c = 0" "created w' = created w" "settings w' = settings w" "mapArgs w' = mapArgs w"
    by simp_all
qed

theorem pickDataDirectory_cancel_exits_0_witness:
  "chooser_shown env_first_run process0 \<and>
   create_directory env_first_run ''/root/num2'' = Inl filesystem_error \<and>
   pickDataDirectory env_first_run [(1, ''/root/num2''), (0, ''/root/num2''), (1, ''/tmp/x'')] process0
     = Exited 0
         (process0\<lparr>exec_calls := 2,
            critical := [''Error: Specified data directory \"/root/num2\" can not be created.'']\<rparr>) \<and>
   (\<exists>w'. pickDataDirectory env_first_run
            ([(1, ''/root/num2'')] @ (0, ''/root/num2'') # [(1, ''/tmp/x'')]) process0
          = Exited 0 w' \<and>
         created w' = created process0 \<and> settings w' = settings process0 \<and>
         mapArgs w' = mapArgs process0 \<and> exec_calls w' = exec_calls process0 + 1 + 1)"
proof -
  have c: "chooser_shown env_first_run process0"
    by (auto simp: chooser_shown_def env_first_run_def process0_def GetArg_def)
  have d: "create_directory env_first_run ''/root/num2'' = Inl filesystem_error"
    by (simp add: env_first_run_def)
  have e: "pickDataDirectory env_first_run
             [(1, ''/root/num2''), (0, ''/root/num2''), (1, ''/tmp/x'')] process0
     = Exited 0
         (process0\<lparr>exec_calls := 2,
            critical := [''Error: Specified data directory \"/root/num2\" can not be created.'']\<rparr>)"
    by (simp add: pickDataDirectory_def env_first_run_def process0_def GetArg_def tr_def)
  have h: "chooser_shown env_first_run process0 \<and>
           (\<forall>(c, d) \<in> set [(1 :: int, ''/root/num2'')].
               c \<noteq> 0 \<and> (\<exists>e. create_directory env_first_run d = Inl e))"
    using c d by simp
  from pickDataDirectory_cancel_exits_0
         [of env_first_run process0 "[(1, ''/root/num2'')]" "''/root/num2''" "[(1, ''/tmp/x'')]",
          THEN conjunct1, rule_format, OF h]
  have "\<exists>w'. pickDataDirectory env_first_run
            ([(1, ''/root/num2'')] @ (0, ''/root/num2'') # [(1, ''/tmp/x'')]) process0
          = Exited 0 w' \<and>
         created w' = created process0 \<and> settings w' = settings process0 \<and>
         mapArgs w' = mapArgs process0 \<and> exec_calls w' = exec_calls process0 + 1 + 1"
    by simp
  with c d e show ?thesis by blast
qed

text \<open>
  C8. When \<^verbatim>\<open>-datadir\<close> is supplied with a non-empty value, \<^verbatim>\<open>pickDataDirectory\<close>
  returns with nothing changed: no dialog was run, no setting and no option written,
  whatever the settings, the filesystem and the user are. Otherwise, when it returns, the
  options are those before the call after \<^verbatim>\<open>SoftSetArg("-datadir", d)\<close>, where \<open>d\<close> is
  the resolved directory: either no dialog was run and \<open>d\<close> is the directory of the
  settings or else the default one, or \<open>d\<close> is a directory the user accepted, which
  \<^verbatim>\<open>fs::create_directory\<close> did not refuse and which is now stored under
  \<^verbatim>\<open>strDataDir\<close>. A value supplied for \<^verbatim>\<open>-datadir\<close> is kept; without one the option
  becomes \<open>d\<close>.
\<close>

theorem pickDataDirectory_datadir:
  "(\<forall>v. mapArgs w ''-datadir'' = Some v \<and> v \<noteq> '''' \<longrightarrow>
        pickDataDirectory env user w = Returned w) \<and>
   (\<forall>w'. GetArg (mapArgs w) ''-datadir'' '''' = '''' \<and>
         pickDataDirectory env user w = Returned w' \<longrightarrow>
      (\<exists>d. mapArgs w' = SoftSetArg (mapArgs w) ''-datadir'' d \<and>
           (exec_calls w' = exec_calls w \<and> settings w' = settings w \<and>
            d = (case settings w ''strDataDir'' of
                   Some v \<Rightarrow> v | None \<Rightarrow> GetDefaultDataDir env)
            \<or>
            exec_calls w < exec_calls w' \<and>
            settings w' = (settings w)(''strDataDir'' \<mapsto> d) \<and>
            (\<exists>c. c \<noteq> 0 \<and> (c, d) \<in> set user) \<and>
            (\<exists>made. create_directory env d = Inr made)) \<and>
           (case mapArgs w ''-datadir'' of
              Some v \<Rightarrow> mapArgs w' ''-datadir'' = Some v
            | None \<Rightarrow> mapArgs w' ''-datadir'' = Some d)))"
proof (intro conjI allI impI)
  fix v
  assume "mapArgs w ''-datadir'' = Some v \<and> v \<noteq> ''''"
  then show "pickDataDirectory env user w = Returned w"
    by (simp add: pickDataDirectory_def GetArg_def)
next
  fix w'
  let ?dataDir = "case settings w ''strDataDir'' of
                    Some v \<Rightarrow> v | None \<Rightarrow> GetDefaultDataDir env"
  assume "GetArg (mapArgs w) ''-datadir'' '''' = '''' \<and>
          pickDataDirectory env user w = Returned w'"
  then have g: "GetArg (mapArgs w) ''-datadir'' '''' = ''''"
    and r: "pickDataDirectory env user w = Returned w'"
    by simp_all
  from g r obtain ex where ex: "exists_str env ?dataDir = Inr ex"
    by (cases "exists_str env ?dataDir") (auto simp: pickDataDirectory_def Let_def)
  show "\<exists>d. mapArgs w' = SoftSetArg (mapArgs w) ''-datadir'' d \<and>
           (exec_calls w' = exec_calls w \<and> settings w' = settings w \<and>
            d = ?dataDir
            \<or>
            exec_calls w < exec_calls w' \<and>
            settings w' = (settings w)(''strDataDir'' \<mapsto> d) \<and>
            (\<exists>c. c \<noteq> 0 \<and> (c, d) \<in> set user) \<and>
            (\<exists>made. create_directory env d = Inr made)) \<and>
           (case mapArgs w ''-datadir'' of
              Some v \<Rightarrow> mapArgs w' ''-datadir'' = Some v
            | None \<Rightarrow> mapArgs w' ''-datadir'' = Some d)"
  proof (cases "\<not> ex \<or> choosedatadir env")
    case False
    with g r ex have w': "w' = w\<lparr>mapArgs := SoftSetArg (mapArgs w) ''-datadir'' ?dataDir\<rparr>"
      by (auto simp: pickDataDirectory_def Let_def)
    show ?thesis
      by (intro exI [of _ ?dataDir])
         (cases "mapArgs w ''-datadir''"; simp add: w' SoftSetArg_def)
  next
    case True
    with g r ex obtain d w1 where b: "choose_loop env user w = Break d w1"
      and w': "w' = w1\<lparr>settings := (settings w1)(''strDataDir'' \<mapsto> d),
                       mapArgs := SoftSetArg (mapArgs w1) ''-datadir'' d\<rparr>"
      by (auto simp: pickDataDirectory_def Let_def split: chosen.splits)
    from choose_loop_Break [OF b] have
      k: "mapArgs w1 = mapArgs w" "settings w1 = settings w" "exec_calls w < exec_calls w1"
         "\<exists>c. c \<noteq> 0 \<and> (c, d) \<in> set user" "\<exists>made. create_directory env d = Inr made"
      by simp_all
    show ?thesis
      using k
      by (intro exI [of _ d])
         (cases "mapArgs w ''-datadir''"; simp add: w' SoftSetArg_def)
  qed
qed

theorem pickDataDirectory_datadir_witness:
  "mapArgs (process_datadir ''/data'') ''-datadir'' = Some ''/data'' \<and> ''/data'' \<noteq> '''' \<and>
   pickDataDirectory env_first_run [(1, ''/tmp/x'')] (process_datadir ''/data'')
     = Returned (process_datadir ''/data'') \<and>
   GetArg (mapArgs process0) ''-datadir'' '''' = '''' \<and>
   pickDataDirectory env_first_run [(1, ''/tmp/x'')] process0
     = Returned (process0\<lparr>exec_calls := 1, created := [''/tmp/x''],
                   settings := [''strDataDir'' \<mapsto> ''/tmp/x''],
                   mapArgs := [''-datadir'' \<mapsto> ''/tmp/x'']\<rparr>) \<and>
   SoftSetArg (mapArgs process0) ''-datadir'' ''/tmp/x'' = [''-datadir'' \<mapsto> ''/tmp/x''] \<and>
   GetArg (mapArgs (process_datadir '''')) ''-datadir'' '''' = '''' \<and>
   pickDataDirectory env_first_run [(1, ''/tmp/x'')] (process_datadir '''')
     = Returned (process0\<lparr>exec_calls := 1, created := [''/tmp/x''],
                   settings := [''strDataDir'' \<mapsto> ''/tmp/x''],
                   mapArgs := [''-datadir'' \<mapsto> '''']\<rparr>)"
proof -
  have a: "mapArgs (process_datadir ''/data'') ''-datadir'' = Some ''/data'' \<and> ''/data'' \<noteq> ''''"
    by (simp add: process_datadir_def)
  have b: "pickDataDirectory env_first_run [(1, ''/tmp/x'')] (process_datadir ''/data'')
     = Returned (process_datadir ''/data'')"
    using pickDataDirectory_datadir [of "process_datadir ''/data''" env_first_run "[(1, ''/tmp/x'')]"] a
    by blast
  have c: "pickDataDirectory env_first_run [(1, ''/tmp/x'')] process0
     = Returned (process0\<lparr>exec_calls := 1, created := [''/tmp/x''],
                   settings := [''strDataDir'' \<mapsto> ''/tmp/x''],
                   mapArgs := [''-datadir'' \<mapsto> ''/tmp/x'']\<rparr>)"
    by (simp add: pickDataDirectory_def env_first_run_def process0_def GetArg_def SoftSetArg_def)
  have d: "pickDataDirectory env_first_run [(1, ''/tmp/x'')] (process_datadir '''')
     = Returned (process0\<lparr>exec_calls := 1, created := [''/tmp/x''],
                   settings := [''strDataDir'' \<mapsto> ''/tmp/x''],
                   mapArgs := [''-datadir'' \<mapsto> '''']\<rparr>)"
    by (simp add: pickDataDirectory_def env_first_run_def process0_def process_datadir_def
          GetArg_def SoftSetArg_def)
  have e: "GetArg (mapArgs process0) ''-datadir'' '''' = ''''"
     "GetArg (mapArgs (process_datadir '''')) ''-datadir'' '''' = ''''"
     "SoftSetArg (mapArgs process0) ''-datadir'' ''/tmp/x'' = [''-datadir'' \<mapsto> ''/tmp/x'']"
    by (simp_all add: process0_def process_datadir_def GetArg_def SoftSetArg_def)
  from a b c d e show ?thesis by simp
qed

end
